theory Spec2Isabelle
  imports Main "HOL-Library.Sublist"
begin

section \<open>Data model of \<open>sched_talks.py\<close>\<close>

text \<open>
  The script fetches the schedule of a conference, downloads the files attached to each
  talk and renders one Markdown document. Python strings and byte strings are modelled
  as \<open>string\<close>. A dictionary with known keys is a record; a key that the code reads with
  \<open>.get\<close> is an \<open>option\<close> field, \<open>None\<close> standing for the absent key (for which \<open>.get\<close>
  returns Python's \<open>None\<close> or the given default). The values have the types of the
  schedule export: names, times and identifiers are strings, \<open>speakers\<close> and \<open>files\<close> are
  lists of dictionaries. The progress bars of \<open>tqdm\<close> only wrap the iteration and are
  left out.
\<close>

record speaker =
  speaker_name :: "string option"

text \<open>A raw attachment descriptor of the API: the keys \<open>path\<close> and \<open>name\<close>.\<close>

record file_descriptor =
  fd_path :: "string option"
  fd_name :: "string option"

text \<open>A resolved attachment, as \<open>_download_attachments\<close> builds it (all three keys set).\<close>

record attachment =
  file_url :: string
  file_path :: string
  file_name :: string

record talk =
  talk_id :: "string option"
  talk_name :: "string option"
  speakers :: "speaker list option"
  event_start :: "string option"
  description :: "string option"
  files :: "file_descriptor list option"
  attachments :: "attachment list option"

datatype error =
    FileExistsError
  | FileNotFoundError
  | OSError
  | TypeError
  | AttributeError
  | RequestException
  | Exception string

text \<open>The response of \<open>requests.get\<close>: it is truthy exactly when \<open>ok\<close>; \<open>content\<close> is the body.\<close>

record response =
  ok :: bool
  content :: string

text \<open>The effects of a run on the outside world, in the order they happen.\<close>

datatype event =
    Mkdir string
  | HttpGet string
  | FileWrite string string

type_synonym world = "event list"

text \<open>
  Everything the script asks of its surroundings and of the libraries it imports:
  the process environment, \<open>slugify\<close>, \<open>json.loads\<close> (\<open>None\<close> when it raises, and otherwise
  the list of talks that the body encodes),
  \<open>requests.get\<close> for the schedule (an exception or a response), the streamed
  \<open>requests.get\<close> of an attachment (an exception, or the chunks received and the exception
  that may end the stream), \<open>os.mkdir\<close> and \<open>open\<close> for writing (the exception raised,
  if any), the text of \<open>lightning_talks.md\<close> (\<open>None\<close> when opening or reading it raises)
  and the formatted time of the clock.
\<close>

record env =
  environ :: "string \<Rightarrow> string option"
  slugify :: "string \<Rightarrow> string"
  json_loads :: "string \<Rightarrow> talk list option"
  requests_get :: "string \<Rightarrow> error + response"
  requests_get_stream :: "string \<Rightarrow> error + (string list \<times> error option)"
  os_mkdir :: "string \<Rightarrow> error option"
  open_for_write :: "string \<Rightarrow> error option"
  lightning_talks_md :: "string option"
  now_strftime :: string

text \<open>The object: the three slots. An unset slot is \<open>None\<close>; reading it raises.\<close>

record sched_talks =
  json :: "talk list option"
  talks :: "talk list"
  settings :: "string \<Rightarrow> string option option"

section \<open>Python and library primitives\<close>

text \<open>What an f-string prints for the result of \<open>.get\<close>: the string, or \<open>None\<close>.\<close>

definition fmt :: "string option \<Rightarrow> string" where
  "fmt v = (case v of None \<Rightarrow> ''None'' | Some s \<Rightarrow> s)"

text \<open>\<open>sep.join(xs)\<close>.\<close>

fun py_join :: "string \<Rightarrow> string list \<Rightarrow> string" where
  "py_join sep [] = []"
| "py_join sep [x] = x"
| "py_join sep (x # y # ys) = x @ sep @ py_join sep (y # ys)"

text \<open>\<open>s.replace(c, new)\<close> for a one-character \<open>c\<close>.\<close>

definition py_replace :: "char \<Rightarrow> string \<Rightarrow> string \<Rightarrow> string" where
  "py_replace c new s = concat (map (\<lambda>x. if x = c then new else [x]) s)"

text \<open>\<open>s.rfind(c)\<close>: the index of the last \<open>c\<close> in \<open>s\<close>, or \<open>-1\<close>.\<close>

definition rfind :: "char \<Rightarrow> string \<Rightarrow> int" where
  "rfind c s =
     (if c \<in> set s then int (length s) - 1 - int (length (takeWhile (\<lambda>x. x \<noteq> c) (rev s)))
      else - 1)"

text \<open>
  \<open>os.path.splitext\<close> (posixpath): the extension starts at the last dot, if that dot comes
  after the last separator and some character of the file name before it is not a dot.
\<close>

definition splitext :: "string \<Rightarrow> string \<times> string" where
  "splitext p =
     (let sepIndex = rfind CHR ''/'' p;
          dotIndex = rfind CHR ''.'' p
      in if dotIndex > sepIndex
            \<and> filter (\<lambda>x. x \<noteq> CHR ''.'')
                 (take (nat (dotIndex - (sepIndex + 1))) (drop (nat (sepIndex + 1)) p)) \<noteq> []
         then (take (nat dotIndex) p, drop (nat dotIndex) p)
         else (p, []))"

text \<open>\<open>os.path.join(a, b)\<close> (posixpath).\<close>

definition os_path_join :: "string \<Rightarrow> string \<Rightarrow> string" where
  "os_path_join a b =
     (if b \<noteq> [] \<and> hd b = CHR ''/'' then b
      else if a = [] \<or> last a = CHR ''/'' then a @ b
      else a @ ''/'' @ b)"

text \<open>\<open>os.path.basename(p)\<close> (posixpath): what follows the last separator.\<close>

definition basename :: "string \<Rightarrow> string" where
  "basename p = drop (nat (rfind CHR ''/'' p + 1)) p"

text \<open>
  \<open>repr\<close> of a byte string, which is what an f-string prints for \<open>response.content\<close>:
  \<open>b'...'\<close>, with double quotes instead when the bytes hold a single quote and no double
  quote, the quote and the backslash escaped, and every byte outside printable ASCII
  written as an escape.
\<close>

definition hexdigit :: "nat \<Rightarrow> char" where
  "hexdigit n = ''0123456789abcdef'' ! n"

definition bytes_quote :: "string \<Rightarrow> char" where
  "bytes_quote b =
     (if CHR 0x27 \<in> set b \<and> CHR 0x22 \<notin> set b then CHR 0x22 else CHR 0x27)"

definition bytes_escape :: "char \<Rightarrow> char \<Rightarrow> string" where
  "bytes_escape quote c =
     (if c = quote \<or> c = CHR 0x5C then [CHR 0x5C, c]
      else if c = CHR 0x09 then [CHR 0x5C, CHR ''t'']
      else if c = CHR 0x0A then [CHR 0x5C, CHR ''n'']
      else if c = CHR 0x0D then [CHR 0x5C, CHR ''r'']
      else if (of_char c :: nat) < 32 \<or> (of_char c :: nat) \<ge> 127
        then [CHR 0x5C, CHR ''x'', hexdigit (of_char c div 16), hexdigit (of_char c mod 16)]
      else [c])"

definition bytes_repr :: "string \<Rightarrow> string" where
  "bytes_repr b =
     (let quote = bytes_quote b
      in ''b'' @ [quote] @ concat (map (bytes_escape quote) b) @ [quote])"

section \<open>Rendering: \<open>as_md\<close>\<close>

text \<open>\<open>speaker.get('name', 'Unknown')\<close>.\<close>

definition speaker_display :: "speaker \<Rightarrow> string" where
  "speaker_display speaker =
     (case speaker_name speaker of None \<Rightarrow> ''Unknown'' | Some n \<Rightarrow> n)"

text \<open>The list \<open>speakers\<close> of the loop body, over \<open>talk.get('speakers', [])\<close>.\<close>

definition speaker_names :: "talk \<Rightarrow> string list" where
  "speaker_names talk =
     map speaker_display (case speakers talk of None \<Rightarrow> [] | Some ss \<Rightarrow> ss)"

definition attachment_md :: "attachment \<Rightarrow> string" where
  "attachment_md attachment =
     ''    - :paperclip: ['' @ file_name attachment @ '']('' @ file_path attachment
       @ '')\<newline>''"

text \<open>The string \<open>talk_md\<close> that the loop body builds for a talk it does not skip.\<close>

definition talk_md :: "talk \<Rightarrow> string" where
  "talk_md talk =
     (let speakers_formated = py_join '', '' (speaker_names talk);
          md1 = ''### '' @ fmt (talk_name talk) @ ''\<newline>'';
          md2 = md1 @ ''  - :snake: _'' @ speakers_formated @ ''_\<newline>'';
          md3 = md2 @ ''  - :alarm_clock:  '' @ fmt (event_start talk) @ ''\<newline>'';
          md4 = (case description talk of
                   None \<Rightarrow> md3
                 | Some d \<Rightarrow>
                     if d = [] then md3
                     else md3 @ ''  - :clipboard:  ''
                            @ py_replace (CHR 0x0D) [] (py_replace (CHR 0x0A) [] d)
                            @ ''\<newline>'');
          md5 = (case attachments talk of
                   None \<Rightarrow> md4
                 | Some as \<Rightarrow>
                     if as = [] then md4
                     else md4 @ ''  - :open_file_folder: Attachments\<newline>''
                            @ concat (map attachment_md as))
      in md5 @ ''  - :link: [More info](https://pycones19.sched.com/event/''
           @ fmt (talk_id talk) @ '')'')"

text \<open>One pass of the loop over \<open>self.talks\<close>: a talk without speakers is skipped.\<close>

definition render_talk :: "talk \<Rightarrow> string \<Rightarrow> string" where
  "render_talk talk talks_content =
     (if speaker_names talk = [] then talks_content
      else talks_content @ talk_md talk @ ''\<newline>'')"

fun render_talks :: "talk list \<Rightarrow> string \<Rightarrow> string" where
  "render_talks [] talks_content = talks_content"
| "render_talks (talk # rest) talks_content =
     render_talks rest (render_talk talk talks_content)"

text \<open>\<open>_get_lighting_talks_content\<close>: the text of the file, or the empty string.\<close>

definition get_lighting_talks_content :: "env \<Rightarrow> string" where
  "get_lighting_talks_content e =
     (case lightning_talks_md e of Some c \<Rightarrow> c | None \<Rightarrow> [])"

definition preamble :: string where
  "preamble =
     ''# PyConES 2019 Conferences and their related stuff\<newline>''
     @ ''It contains all available talks, their attachments and other interesting information.\<newline>''
     @ ''## Talks\<newline>''"

definition footer :: "env \<Rightarrow> string" where
  "footer e = ''\<newline>_Automatically created with :hearts: at '' @ now_strftime e @ ''_''"

definition as_md :: "env \<Rightarrow> sched_talks \<Rightarrow> string" where
  "as_md e self =
     (let talks_content = render_talks (talks self) preamble;
          lt_content = get_lighting_talks_content e;
          talks_content = (if lt_content \<noteq> [] then talks_content @ ''\<newline>'' @ lt_content
                           else talks_content)
      in talks_content @ footer e)"

section \<open>The object and its construction\<close>

text \<open>The properties \<open>output_dir\<close> and \<open>api_key\<close>: \<open>self.settings.get(key)\<close>.\<close>

definition output_dir :: "sched_talks \<Rightarrow> string option" where
  "output_dir self = (case settings self ''output_dir'' of None \<Rightarrow> None | Some v \<Rightarrow> v)"

definition api_key :: "sched_talks \<Rightarrow> string option" where
  "api_key self = (case settings self ''api_key'' of None \<Rightarrow> None | Some v \<Rightarrow> v)"

text \<open>
  \<open>_mkdir\<close>: \<open>os.mkdir\<close>, with \<open>FileExistsError\<close> swallowed and every other exception
  passed on. \<open>os.mkdir('')\<close> raises \<open>FileNotFoundError\<close> whatever the file system holds.
\<close>

definition mkdir :: "env \<Rightarrow> string \<Rightarrow> world \<Rightarrow> (error + unit) \<times> world" where
  "mkdir e dir w =
     (case (if dir = [] then Some FileNotFoundError else os_mkdir e dir) of
        None \<Rightarrow> (Inr (), w @ [Mkdir dir])
      | Some FileExistsError \<Rightarrow> (Inr (), w)
      | Some err \<Rightarrow> (Inl err, w))"

text \<open>
  The local path of an attachment: the base of its name slugified, the extension kept,
  joined to the directory.
\<close>

definition file_path_local :: "env \<Rightarrow> string \<Rightarrow> string \<Rightarrow> string" where
  "file_path_local e dir name =
     (let (cleaned_file_name, file_extension) = splitext name
      in os_path_join dir (slugify e cleaned_file_name @ file_extension))"

text \<open>\<open>destination_path or self.output_dir\<close>.\<close>

definition destination_or_output_dir :: "sched_talks \<Rightarrow> string option \<Rightarrow> string option" where
  "destination_or_output_dir self destination_path =
     (if destination_path = None \<or> destination_path = Some [] then output_dir self
      else destination_path)"

text \<open>
  The body of the loop of \<open>_download_attachments\<close> for one descriptor.
  \<open>os.path.splitext(None)\<close> and \<open>os.path.join(None, _)\<close> raise \<open>TypeError\<close>,
  \<open>requests.get(None)\<close> raises a \<open>RequestException\<close>.
\<close>

definition download_attachment ::
  "env \<Rightarrow> sched_talks \<Rightarrow> string option \<Rightarrow> file_descriptor \<Rightarrow> world
     \<Rightarrow> (error + attachment) \<times> world" where
  "download_attachment e self destination_path descriptor w =
     (case fd_name descriptor of
        None \<Rightarrow> (Inl TypeError, w)
      | Some name \<Rightarrow>
          (case destination_or_output_dir self destination_path of
             None \<Rightarrow> (Inl TypeError, w)
           | Some dir \<Rightarrow>
               (case fd_path descriptor of
                  None \<Rightarrow> (Inl RequestException, w)
                | Some url \<Rightarrow>
                    (case requests_get_stream e url of
                       Inl err \<Rightarrow> (Inl err, w @ [HttpGet url])
                     | Inr (chunks, broken) \<Rightarrow>
                         (case open_for_write e (file_path_local e dir name) of
                            Some err \<Rightarrow> (Inl err, w @ [HttpGet url])
                          | None \<Rightarrow>
                              (let w' = w @ [HttpGet url,
                                     FileWrite (file_path_local e dir name)
                                       (concat (filter (\<lambda>chunk. chunk \<noteq> []) chunks))]
                               in case broken of
                                    Some err \<Rightarrow> (Inl err, w')
                                  | None \<Rightarrow>
                                      (Inr \<lparr>file_url = url,
                                            file_path = file_path_local e dir name,
                                            file_name = name\<rparr>, w')))))))"

text \<open>The loop of \<open>_download_attachments\<close>, with its accumulator \<open>result\<close>.\<close>

fun download_loop ::
  "env \<Rightarrow> sched_talks \<Rightarrow> string option \<Rightarrow> file_descriptor list \<Rightarrow> attachment list \<Rightarrow> world
     \<Rightarrow> (error + attachment list) \<times> world" where
  "download_loop e self destination_path [] result w = (Inr result, w)"
| "download_loop e self destination_path (descriptor # rest) result w =
     (case download_attachment e self destination_path descriptor w of
        (Inl err, w') \<Rightarrow> (Inl err, w')
      | (Inr resolved, w') \<Rightarrow>
          download_loop e self destination_path rest (result @ [resolved]) w')"

definition download_attachments ::
  "env \<Rightarrow> sched_talks \<Rightarrow> file_descriptor list \<Rightarrow> string option \<Rightarrow> world
     \<Rightarrow> (error + attachment list) \<times> world" where
  "download_attachments e self descriptors destination_path w =
     download_loop e self destination_path descriptors [] w"

text \<open>
  The body of the loop of \<open>_get_talks\<close> up to the append: the talk, with its
  \<open>attachments\<close> key set when it has files. \<open>slugify(None)\<close> raises \<open>TypeError\<close>.
\<close>

definition process_talk ::
  "env \<Rightarrow> sched_talks \<Rightarrow> talk \<Rightarrow> world \<Rightarrow> (error + talk) \<times> world" where
  "process_talk e self talk w =
     (let descriptors = (case files talk of None \<Rightarrow> [] | Some fs \<Rightarrow> fs)
      in if descriptors \<noteq> [] then
           (case (talk_name talk, output_dir self) of
              (Some name, Some dir) \<Rightarrow>
                (let talk_path = os_path_join dir (slugify e name)
                 in case mkdir e talk_path w of
                      (Inl err, w') \<Rightarrow> (Inl err, w')
                    | (Inr _, w') \<Rightarrow>
                        (case download_attachments e self descriptors (Some talk_path) w' of
                           (Inl err, w'') \<Rightarrow> (Inl err, w'')
                         | (Inr attachments_resolved, w'') \<Rightarrow>
                             (Inr (talk\<lparr>attachments := Some attachments_resolved\<rparr>), w'')))
            | _ \<Rightarrow> (Inl TypeError, w))
         else (Inr talk, w))"

text \<open>
  The loop of \<open>_get_talks\<close> over \<open>self.json\<close>: each talk is appended to \<open>self.talks\<close>. The
  list \<open>self.json\<close> holds the same dictionaries; nothing reads it after the loop has
  started, so it is left as parsed.
\<close>

fun process_talks ::
  "env \<Rightarrow> talk list \<Rightarrow> sched_talks \<Rightarrow> world \<Rightarrow> (error + sched_talks) \<times> world" where
  "process_talks e [] self w = (Inr self, w)"
| "process_talks e (talk # rest) self w =
     (case process_talk e self talk w of
        (Inl err, w') \<Rightarrow> (Inl err, w')
      | (Inr talk', w') \<Rightarrow> process_talks e rest (self\<lparr>talks := talks self @ [talk']\<rparr>) w')"

definition schedule_url :: "sched_talks \<Rightarrow> string" where
  "schedule_url self =
     ''https://pycones19.sched.com/api/session/export?api_key='' @ fmt (api_key self)
     @ ''&format=json&strip_html=Y&fields=id,files,name,speakers,event_start,description''"

definition retrieve_message :: "string \<Rightarrow> string" where
  "retrieve_message body =
     ''Sched Talks can'' @ [CHR 0x27] @ ''t be correctly retrieved: '' @ [CHR 0x27]
     @ bytes_repr body"

text \<open>
  \<open>_get_talks\<close>. The slot \<open>json\<close> is assigned only under \<open>if talks_response\<close>; the loop
  then reads \<open>self.json\<close>, which raises \<open>AttributeError\<close> when the slot is unset.
\<close>

definition get_talks :: "env \<Rightarrow> sched_talks \<Rightarrow> world \<Rightarrow> (error + sched_talks) \<times> world" where
  "get_talks e self w =
     (let url = schedule_url self; w' = w @ [HttpGet url]
      in case requests_get e url of
           Inl err \<Rightarrow> (Inl err, w')
         | Inr talks_response \<Rightarrow>
             (case (if ok talks_response then
                      (case json_loads e (content talks_response) of
                         Some j \<Rightarrow> Inr (self\<lparr>json := Some j\<rparr>)
                       | None \<Rightarrow> Inl (Exception (retrieve_message (content talks_response))))
                    else Inr self) of
                Inl err \<Rightarrow> (Inl err, w')
              | Inr self' \<Rightarrow>
                  (case json self' of
                     None \<Rightarrow> (Inl AttributeError, w')
                   | Some j \<Rightarrow> process_talks e j self' w')))"

text \<open>
  \<open>__init__\<close>: the settings are the two defaults overridden by the keyword arguments;
  \<open>talks\<close> is set, \<open>json\<close> is not. \<open>os.mkdir(None)\<close> raises \<open>TypeError\<close>.
\<close>

definition new_self :: "env \<Rightarrow> (string \<Rightarrow> string option option) \<Rightarrow> sched_talks" where
  "new_self e kwargs =
     \<lparr>json = None, talks = [],
      settings =
        [''output_dir'' \<mapsto> Some ''files'',
         ''api_key'' \<mapsto>
            (case environ e ''SCHED_API_KEY'' of
               Some v \<Rightarrow> Some v
             | None \<Rightarrow> environ e ''SCHED_KEY'')] ++ kwargs\<rparr>"

definition init ::
  "env \<Rightarrow> (string \<Rightarrow> string option option) \<Rightarrow> world \<Rightarrow> (error + sched_talks) \<times> world" where
  "init e kwargs w =
     (let self = new_self e kwargs
      in case output_dir self of
           None \<Rightarrow> (Inl TypeError, w)
         | Some dir \<Rightarrow>
             (case mkdir e dir w of
                (Inl err, w') \<Rightarrow> (Inl err, w')
              | (Inr _, w') \<Rightarrow> get_talks e self w'))"

section \<open>Export and the command line\<close>

definition export_md :: "env \<Rightarrow> sched_talks \<Rightarrow> string \<Rightarrow> world \<Rightarrow> (error + unit) \<times> world" where
  "export_md e self readme w =
     (case open_for_write e readme of
        Some err \<Rightarrow> (Inl err, w)
      | None \<Rightarrow> (Inr (), w @ [FileWrite readme (as_md e self)]))"

text \<open>The command line: the value of each flag, \<open>None\<close> when the flag is not given.\<close>

record cli =
  flag_output_dir :: "string option"
  flag_token :: "string option"

text \<open>\<open>parser.parse_args()\<close>: \<open>output_dir\<close> has the default \<open>files\<close>, \<open>api_key\<close> has none.\<close>

definition parse_args :: "cli \<Rightarrow> (string \<Rightarrow> string option option)" where
  "parse_args c =
     [''output_dir'' \<mapsto> Some (case flag_output_dir c of None \<Rightarrow> ''files'' | Some d \<Rightarrow> d),
      ''api_key'' \<mapsto> flag_token c]"

text \<open>The keyword arguments of the main block: an empty \<open>api_key\<close> is deleted.\<close>

definition main_kwargs :: "cli \<Rightarrow> (string \<Rightarrow> string option option)" where
  "main_kwargs c =
     (let options = parse_args c
      in if options ''api_key'' = Some None \<or> options ''api_key'' = Some (Some [])
         then options(''api_key'' := None) else options)"

definition main :: "env \<Rightarrow> cli \<Rightarrow> world \<Rightarrow> (error + unit) \<times> world" where
  "main e c w =
     (case init e (main_kwargs c) w of
        (Inl err, w') \<Rightarrow> (Inl err, w')
      | (Inr self, w') \<Rightarrow> export_md e self ''README.md'' w')"

section \<open>Notions used to state the properties\<close>

text \<open>What \<open>as_md\<close> appends for the lightning talks: nothing, or a newline and the text.\<close>

definition lightning_part :: "env \<Rightarrow> string" where
  "lightning_part e =
     (case lightning_talks_md e of
        None \<Rightarrow> []
      | Some c \<Rightarrow> if c = [] then [] else ''\<newline>'' @ c)"

text \<open>The paths of the files written, in order.\<close>

fun written_paths :: "world \<Rightarrow> string list" where
  "written_paths [] = []"
| "written_paths (FileWrite path body # evs) = path # written_paths evs"
| "written_paths (Mkdir dir # evs) = written_paths evs"
| "written_paths (HttpGet url # evs) = written_paths evs"

text \<open>A directory path written with its final separator.\<close>

definition with_sep :: "string \<Rightarrow> string" where
  "with_sep dir = (if dir \<noteq> [] \<and> last dir = CHR ''/'' then dir else dir @ ''/'')"

text \<open>
  Bytes that \<open>repr\<close> prints as they are: printable ASCII with no backslash, and not
  holding both kinds of quote.
\<close>

definition plain_bytes :: "string \<Rightarrow> bool" where
  "plain_bytes b =
     (list_all (\<lambda>c. (32::nat) \<le> of_char c \<and> (of_char c :: nat) < 127 \<and> c \<noteq> CHR 0x5C) b
      \<and> \<not> (CHR 0x27 \<in> set b \<and> CHR 0x22 \<in> set b))"

section \<open>A sample run\<close>

text \<open>
  A stand-in for \<open>slugify\<close> on the sample names: every character outside \<open>a-z0-9\<close>
  becomes a hyphen.
\<close>

definition sample_slugify :: "string \<Rightarrow> string" where
  "sample_slugify s =
     map (\<lambda>c. if c \<in> set ''abcdefghijklmnopqrstuvwxyz0123456789'' then c else CHR ''-'') s"

definition sample_talk :: talk where
  "sample_talk =
     \<lparr>talk_id = Some ''a1'', talk_name = Some ''intro to pytest'',
      speakers = Some [\<lparr>speaker_name = Some ''Ana''\<rparr>, \<lparr>speaker_name = None\<rparr>],
      event_start = Some ''2019-10-05 10:00'',
      description = Some (''line1\<newline>line2'' @ [CHR 0x0D, CHR 0x0A]),
      files = Some [\<lparr>fd_path = Some ''https://sched.example/f/1'',
                      fd_name = Some ''slides v2.pdf''\<rparr>,
                    \<lparr>fd_path = Some ''https://sched.example/f/2'',
                      fd_name = Some ''demo.tar.gz''\<rparr>],
      attachments = None\<rparr>"

definition sample_break :: talk where
  "sample_break =
     \<lparr>talk_id = Some ''b2'', talk_name = Some ''coffee break'', speakers = Some [],
      event_start = Some ''2019-10-05 11:00'', description = None, files = None,
      attachments = None\<rparr>"

definition sample_body :: string where
  "sample_body = ''[two talks]''"

definition sample_env :: env where
  "sample_env =
     \<lparr>environ = [''SCHED_KEY'' \<mapsto> ''k2''],
      slugify = sample_slugify,
      json_loads = (\<lambda>b. if b = sample_body then Some [sample_talk, sample_break] else None),
      requests_get = (\<lambda>url. Inr \<lparr>ok = True, content = sample_body\<rparr>),
      requests_get_stream = (\<lambda>url. Inr ([''%PDF'', [], ''-1.4''], None)),
      os_mkdir = (\<lambda>dir. None),
      open_for_write = (\<lambda>path. None),
      lightning_talks_md = Some ''## Lightning talks'',
      now_strftime = ''2019/10/06 12:00''\<rparr>"

definition sample_cli :: cli where
  "sample_cli = \<lparr>flag_output_dir = None, flag_token = Some ''k0''\<rparr>"

text \<open>The talk as the sample run leaves it: its two files resolved.\<close>

definition sample_talk_resolved :: talk where
  "sample_talk_resolved =
     sample_talk\<lparr>attachments :=
       Some [\<lparr>file_url = ''https://sched.example/f/1'',
               file_path = ''files/intro-to-pytest/slides-v2.pdf'',
               file_name = ''slides v2.pdf''\<rparr>,
             \<lparr>file_url = ''https://sched.example/f/2'',
               file_path = ''files/intro-to-pytest/demo-tar.gz'',
               file_name = ''demo.tar.gz''\<rparr>]\<rparr>"

text \<open>The same surroundings with a schedule response of status 404.\<close>

definition sample_env_404 :: env where
  "sample_env_404 = sample_env\<lparr>requests_get := (\<lambda>url. Inr \<lparr>ok = False, content = ''Not Found''\<rparr>)\<rparr>"

text \<open>The same surroundings with a schedule response of status 200 that is not JSON.\<close>

definition html_body :: string where
  "html_body = ''<h1>Invalid API key</h1>\<newline>''"

definition sample_env_html :: env where
  "sample_env_html = sample_env\<lparr>requests_get := (\<lambda>url. Inr \<lparr>ok = True, content = html_body\<rparr>)\<rparr>"

text \<open>The same surroundings with a schedule response of status 200 in plain text.\<close>

definition text_body :: string where
  "text_body = ''ERROR: Invalid API key''"

definition sample_env_text :: env where
  "sample_env_text = sample_env\<lparr>requests_get := (\<lambda>url. Inr \<lparr>ok = True, content = text_body\<rparr>)\<rparr>"

text \<open>The same surroundings with the download of the second file failing.\<close>

definition sample_env_broken :: env where
  "sample_env_broken =
     sample_env\<lparr>requests_get_stream :=
       (\<lambda>url. if url = ''https://sched.example/f/2'' then Inl RequestException
              else Inr ([''%PDF''], None))\<rparr>"

text \<open>The object that the sample run builds.\<close>

definition sample_self :: sched_talks where
  "sample_self =
     (new_self sample_env (main_kwargs sample_cli))
       \<lparr>json := Some [sample_talk, sample_break],
        talks := [sample_talk_resolved, sample_break]\<rparr>"

section \<open>Lemmas about rendering\<close>

lemma render_talk_append: "render_talk talk acc = acc @ render_talk talk []"
  by (simp add: render_talk_def)

lemma render_talks_concat:
  "render_talks ts acc = acc @ concat (map (\<lambda>t. render_talk t []) ts)"
proof (induction ts arbitrary: acc)
  case Nil
  show ?case by simp
next
  case (Cons t ts)
  have "render_talks (t # ts) acc = render_talks ts (render_talk t acc)" by simp
  also have "\<dots> = render_talk t acc @ concat (map (\<lambda>t. render_talk t []) ts)"
    by (rule Cons.IH)
  also have "\<dots> = acc @ concat (map (\<lambda>t. render_talk t []) (t # ts))"
    using render_talk_append [of t acc] by simp
  finally show ?case .
qed

lemma concat_map_render_filter:
  "concat (map (\<lambda>t. render_talk t []) ts)
     = concat (map (\<lambda>t. talk_md t @ ''\<newline>'') (filter (\<lambda>t. speaker_names t \<noteq> []) ts))"
  by (induction ts) (simp_all add: render_talk_def)


lemma as_md_blocks:
  "as_md e self
     = preamble
       @ concat (map (\<lambda>t. talk_md t @ ''\<newline>'') (filter (\<lambda>t. speaker_names t \<noteq> []) (talks self)))
       @ lightning_part e @ footer e"
  by (simp add: as_md_def Let_def get_lighting_talks_content_def lightning_part_def
      render_talks_concat [of _ preamble] concat_map_render_filter split: option.splits)

lemma talk_md_sublist_as_md:
  assumes "talk \<in> set (talks self)" and "speaker_names talk \<noteq> []"
  shows "sublist (talk_md talk @ ''\<newline>'') (as_md e self)"
proof -
  let ?f = "\<lambda>t. talk_md t @ ''\<newline>''"
  let ?ts = "filter (\<lambda>t. speaker_names t \<noteq> []) (talks self)"
  from assms have "talk \<in> set ?ts" by simp
  then obtain xs ys where "?ts = xs @ talk # ys" by (auto simp: in_set_conv_decomp)
  then have "as_md e self = (preamble @ concat (map ?f xs)) @ ?f talk
                 @ (concat (map ?f ys) @ lightning_part e @ footer e)"
    by (simp add: as_md_blocks)
  then show ?thesis unfolding sublist_def by blast
qed

lemma talk_md_heading:
  "prefix (''### '' @ fmt (talk_name talk) @ ''\<newline>'' @ ''  - :snake: _''
           @ py_join '', '' (speaker_names talk) @ ''_\<newline>'') (talk_md talk)"
  by (simp add: talk_md_def Let_def prefix_def split: option.splits)


lemma py_join_middle:
  "py_join sep (xs @ y # ys)
     = (if xs = [] then [] else py_join sep xs @ sep) @ y
       @ (if ys = [] then [] else sep @ py_join sep ys)"
proof (induction sep xs rule: py_join.induct)
  case (1 sep)
  show ?case by (cases ys) simp_all
next
  case (2 sep x)
  show ?case by (cases ys) simp_all
next
  case (3 sep x y' zs)
  then show ?case by simp
qed




section \<open>Lemmas about paths\<close>

lemma rfind_after:
  assumes "rfind c s < int i" and "i < length s"
  shows "s ! i \<noteq> c"
proof (cases "c \<in> set s")
  case False
  with assms(2) show ?thesis by (metis nth_mem)
next
  case True
  let ?t = "takeWhile (\<lambda>x. x \<noteq> c) (rev s)"
  have len: "length ?t \<le> length s"
    using length_takeWhile_le [of "\<lambda>x. x \<noteq> c" "rev s"] by simp
  from True assms(1) have "int (length s) - 1 - int (length ?t) < int i"
    by (simp add: rfind_def)
  with assms(2) have j: "length s - 1 - i < length ?t" by linarith
  then have "?t ! (length s - 1 - i) \<in> set ?t" by (rule nth_mem)
  then have "?t ! (length s - 1 - i) \<noteq> c" by (auto dest: set_takeWhileD)
  moreover have "?t ! (length s - 1 - i) = rev s ! (length s - 1 - i)"
    using j by (rule takeWhile_nth)
  moreover have "rev s ! (length s - 1 - i) = s ! i"
    using assms(2) by (simp add: rev_nth)
  ultimately show ?thesis by simp
qed

lemma rfind_ge: "- 1 \<le> rfind c s"
  using length_takeWhile_le [of "\<lambda>x. x \<noteq> c" "rev s"]
  by (auto simp: rfind_def)

lemma splitext_rejoin: "fst (splitext p) @ snd (splitext p) = p"
  by (simp add: splitext_def Let_def)

lemma splitext_no_sep: "CHR ''/'' \<notin> set (snd (splitext p))"
proof (cases "snd (splitext p) = []")
  case True
  then show ?thesis by simp
next
  case False
  let ?d = "rfind CHR ''.'' p"
  from False have gt: "rfind CHR ''/'' p < ?d" and ext: "snd (splitext p) = drop (nat ?d) p"
    by (auto simp: splitext_def Let_def split: if_splits)
  have nonneg: "0 \<le> ?d" using gt rfind_ge [of "CHR ''/''" p] by linarith
  show ?thesis
  proof
    assume "CHR ''/'' \<in> set (snd (splitext p))"
    then obtain k where k: "k < length (drop (nat ?d) p)" "drop (nat ?d) p ! k = CHR ''/''"
      unfolding ext by (auto simp: in_set_conv_nth)
    then have "nat ?d + k < length p" and "p ! (nat ?d + k) = CHR ''/''" by auto
    moreover have "rfind CHR ''/'' p < int (nat ?d + k)" using gt nonneg by linarith
    ultimately show False using rfind_after by blast
  qed
qed

lemma rfind_last_occurrence:
  assumes "c \<notin> set f"
  shows "rfind c (x @ c # f) = int (length x)"
proof -
  have "takeWhile (\<lambda>y. y \<noteq> c) (rev f @ c # rev x) = rev f"
    using assms by (subst takeWhile_append2) auto
  then show ?thesis by (simp add: rfind_def)
qed

lemma with_sep_ends: "\<exists>x. with_sep dir = x @ ''/''"
proof (cases "dir \<noteq> [] \<and> last dir = CHR ''/''")
  case True
  then have "dir = butlast dir @ ''/''" using append_butlast_last_id [of dir] by simp
  with True show ?thesis unfolding with_sep_def by metis
next
  case False
  then show ?thesis unfolding with_sep_def by auto
qed

lemma basename_under:
  assumes "CHR ''/'' \<notin> set f"
  shows "basename (with_sep dir @ f) = f"
proof -
  obtain x where x: "with_sep dir = x @ ''/''" using with_sep_ends by blast
  have "rfind CHR ''/'' (x @ CHR ''/'' # f) = int (length x)"
    using assms by (rule rfind_last_occurrence)
  moreover have "nat (int (length x) + 1) = Suc (length x)" by simp
  ultimately show ?thesis by (simp add: basename_def x)
qed

lemma os_path_join_with_sep:
  assumes "a \<noteq> []" and "CHR ''/'' \<notin> set b"
  shows "os_path_join a b = with_sep a @ b"
proof -
  from assms(2) have "\<not> (b \<noteq> [] \<and> hd b = CHR ''/'')" by (cases b) auto
  with assms(1) show ?thesis by (simp add: os_path_join_def with_sep_def)
qed

lemma os_path_join_has_sep:
  assumes "a \<noteq> []"
  shows "CHR ''/'' \<in> set (os_path_join a b)"
proof (cases "b \<noteq> [] \<and> hd b = CHR ''/''")
  case True
  then show ?thesis by (cases b) (auto simp: os_path_join_def)
next
  case False
  show ?thesis
  proof (cases "last a = CHR ''/''")
    case True
    with assms have "CHR ''/'' \<in> set a" using last_in_set by metis
    with False True show ?thesis by (auto simp: os_path_join_def)
  next
    case no: False
    with False assms show ?thesis by (auto simp: os_path_join_def)
  qed
qed

lemma file_path_local_has_sep: "dir \<noteq> [] \<Longrightarrow> CHR ''/'' \<in> set (file_path_local e dir name)"
  by (simp add: file_path_local_def os_path_join_has_sep split_beta)

lemma file_path_local_under:
  assumes "dir \<noteq> []" and "\<forall>s. CHR ''/'' \<notin> set (slugify e s)"
  shows "file_path_local e dir name
           = with_sep dir @ slugify e (fst (splitext name)) @ snd (splitext name)"
proof -
  have "CHR ''/'' \<notin> set (slugify e (fst (splitext name)) @ snd (splitext name))"
    using assms(2) splitext_no_sep [of name] by simp
  then show ?thesis
    using assms(1) by (simp add: file_path_local_def os_path_join_with_sep split_beta)
qed

section \<open>Lemmas about the downloads and their effects\<close>

lemma written_paths_append: "written_paths (a @ b) = written_paths a @ written_paths b"
  by (induction a rule: written_paths.induct) simp_all

lemma download_attachment_Inr:
  assumes "download_attachment e self dest d w = (Inr a, w')"
  shows "\<exists>dir. destination_or_output_dir self dest = Some dir
           \<and> fd_name d = Some (file_name a) \<and> fd_path d = Some (file_url a)
           \<and> file_path a = file_path_local e dir (file_name a)"
  using assms
  by (auto simp: download_attachment_def Let_def split: option.splits sum.splits prod.splits)

lemma download_attachment_world:
  assumes "download_attachment e self dest d w = (r, w')"
  shows "\<exists>evs. w' = w @ evs
           \<and> (\<forall>p\<in>set (written_paths evs). \<exists>dir name.
                 destination_or_output_dir self dest = Some dir \<and> p = file_path_local e dir name)"
  using assms
  by (auto simp: download_attachment_def Let_def split: option.splits sum.splits prod.splits)

lemma download_loop_Inr:
  "download_loop e self dest ds result w = (Inr res, w')
   \<Longrightarrow> \<exists>new. res = result @ new \<and> length new = length ds
         \<and> map (\<lambda>a. Some (file_name a)) new = map fd_name ds
         \<and> map (\<lambda>a. Some (file_url a)) new = map fd_path ds
         \<and> (\<forall>a\<in>set new. \<exists>dir. destination_or_output_dir self dest = Some dir
                \<and> file_path a = file_path_local e dir (file_name a))"
proof (induction ds arbitrary: result w)
  case Nil
  then show ?case by simp
next
  case (Cons d ds)
  from Cons.prems obtain a w1 where
    one: "download_attachment e self dest d w = (Inr a, w1)" and
    rest: "download_loop e self dest ds (result @ [a]) w1 = (Inr res, w')"
    by (auto split: prod.splits sum.splits)
  from Cons.IH [OF rest] obtain new where new:
    "res = (result @ [a]) @ new" "length new = length ds"
    "map (\<lambda>a. Some (file_name a)) new = map fd_name ds"
    "map (\<lambda>a. Some (file_url a)) new = map fd_path ds"
    "\<forall>a\<in>set new. \<exists>dir. destination_or_output_dir self dest = Some dir
        \<and> file_path a = file_path_local e dir (file_name a)"
    by blast
  from download_attachment_Inr [OF one] new
  have "res = result @ (a # new) \<and> length (a # new) = length (d # ds)
         \<and> map (\<lambda>a. Some (file_name a)) (a # new) = map fd_name (d # ds)
         \<and> map (\<lambda>a. Some (file_url a)) (a # new) = map fd_path (d # ds)
         \<and> (\<forall>a\<in>set (a # new). \<exists>dir. destination_or_output_dir self dest = Some dir
                \<and> file_path a = file_path_local e dir (file_name a))"
    by auto
  then show ?case by blast
qed

lemma download_loop_world:
  "download_loop e self dest ds result w = (r, w')
   \<Longrightarrow> \<exists>evs. w' = w @ evs
         \<and> (\<forall>p\<in>set (written_paths evs). \<exists>dir name.
               destination_or_output_dir self dest = Some dir \<and> p = file_path_local e dir name)"
proof (induction ds arbitrary: result w)
  case Nil
  then show ?case by simp
next
  case (Cons d ds)
  obtain r1 w1 where one: "download_attachment e self dest d w = (r1, w1)" by fastforce
  from download_attachment_world [OF one] obtain evs1 where evs1:
    "w1 = w @ evs1"
    "\<forall>p\<in>set (written_paths evs1). \<exists>dir name.
        destination_or_output_dir self dest = Some dir \<and> p = file_path_local e dir name"
    by blast
  show ?case
  proof (cases r1)
    case (Inl err)
    with Cons.prems one have "w' = w1" by simp
    with evs1 show ?thesis by blast
  next
    case (Inr a)
    with Cons.prems one have "download_loop e self dest ds (result @ [a]) w1 = (r, w')" by simp
    from Cons.IH [OF this] obtain evs2 where evs2:
      "w' = w1 @ evs2"
      "\<forall>p\<in>set (written_paths evs2). \<exists>dir name.
          destination_or_output_dir self dest = Some dir \<and> p = file_path_local e dir name"
      by blast
    from evs1 evs2 have "w' = w @ (evs1 @ evs2)
       \<and> (\<forall>p\<in>set (written_paths (evs1 @ evs2)). \<exists>dir name.
          destination_or_output_dir self dest = Some dir \<and> p = file_path_local e dir name)"
      by (auto simp: written_paths_append)
    then show ?thesis by blast
  qed
qed

lemma mkdir_Inr:
  assumes "mkdir e dir w = (Inr u, w')"
  shows "dir \<noteq> [] \<and> (\<exists>evs. w' = w @ evs \<and> written_paths evs = [])"
  using assms by (auto simp: mkdir_def split: option.splits error.splits if_splits)

lemma mkdir_world:
  assumes "mkdir e dir w = (r, w')"
  shows "\<exists>evs. w' = w @ evs \<and> written_paths evs = []"
  using assms by (auto simp: mkdir_def split: option.splits error.splits if_splits)

lemma destination_Some:
  "dir \<noteq> [] \<Longrightarrow> destination_or_output_dir self (Some dir) = Some dir"
  by (simp add: destination_or_output_dir_def)

lemma process_talk_world:
  assumes "process_talk e self talk w = (r, w')"
  shows "\<exists>evs. w' = w @ evs \<and> (\<forall>p\<in>set (written_paths evs). CHR ''/'' \<in> set p)"
proof (cases "(case files talk of None \<Rightarrow> [] | Some fs \<Rightarrow> fs) = []
              \<or> talk_name talk = None \<or> output_dir self = None")
  case True
  with assms have "w' = w"
    by (auto simp: process_talk_def Let_def split: option.splits if_splits)
  then show ?thesis by simp
next
  case False
  then obtain name dir where nd: "talk_name talk = Some name" "output_dir self = Some dir"
    and ne: "(case files talk of None \<Rightarrow> [] | Some fs \<Rightarrow> fs) \<noteq> []"
    by auto
  let ?ds = "case files talk of None \<Rightarrow> [] | Some fs \<Rightarrow> fs"
  let ?tp = "os_path_join dir (slugify e name)"
  obtain r1 w1 where mk: "mkdir e ?tp w = (r1, w1)" by fastforce
  from mkdir_world [OF mk] obtain evs1 where evs1: "w1 = w @ evs1" "written_paths evs1 = []"
    by blast
  show ?thesis
  proof (cases r1)
    case (Inl err)
    with assms nd ne mk have "w' = w1" by (simp add: process_talk_def Let_def)
    with evs1 show ?thesis by auto
  next
    case (Inr u)
    with mk have tp: "?tp \<noteq> []" using mkdir_Inr by blast
    obtain r2 w2 where dl: "download_loop e self (Some ?tp) ?ds [] w1 = (r2, w2)" by fastforce
    from download_loop_world [OF dl] obtain evs2 where evs2: "w2 = w1 @ evs2"
      "\<forall>p\<in>set (written_paths evs2). \<exists>dir name.
         destination_or_output_dir self (Some ?tp) = Some dir \<and> p = file_path_local e dir name"
      by blast
    have "\<forall>p\<in>set (written_paths evs2). CHR ''/'' \<in> set p"
      using evs2(2) tp by (auto simp: destination_Some file_path_local_has_sep)
    moreover have "w' = w2"
      using assms nd ne mk Inr dl
      by (auto simp: process_talk_def Let_def download_attachments_def split: sum.splits)
    ultimately have "w' = w @ (evs1 @ evs2)
        \<and> (\<forall>p\<in>set (written_paths (evs1 @ evs2)). CHR ''/'' \<in> set p)"
      using evs1 evs2(1) by (simp add: written_paths_append)
    then show ?thesis by blast
  qed
qed

lemma process_talks_world:
  "process_talks e ts self w = (r, w')
   \<Longrightarrow> \<exists>evs. w' = w @ evs \<and> (\<forall>p\<in>set (written_paths evs). CHR ''/'' \<in> set p)"
proof (induction ts arbitrary: self w)
  case Nil
  then show ?case by simp
next
  case (Cons t ts)
  obtain r1 w1 where one: "process_talk e self t w = (r1, w1)" by fastforce
  from process_talk_world [OF one] obtain evs1 where evs1:
    "w1 = w @ evs1" "\<forall>p\<in>set (written_paths evs1). CHR ''/'' \<in> set p"
    by blast
  show ?case
  proof (cases r1)
    case (Inl err)
    with Cons.prems one have "w' = w1" by simp
    with evs1 show ?thesis by blast
  next
    case (Inr t')
    with Cons.prems one
    have "process_talks e ts (self\<lparr>talks := talks self @ [t']\<rparr>) w1 = (r, w')" by simp
    from Cons.IH [OF this] obtain evs2 where
      "w' = w1 @ evs2" "\<forall>p\<in>set (written_paths evs2). CHR ''/'' \<in> set p"
      by blast
    with evs1 have "w' = w @ (evs1 @ evs2)
        \<and> (\<forall>p\<in>set (written_paths (evs1 @ evs2)). CHR ''/'' \<in> set p)"
      by (auto simp: written_paths_append)
    then show ?thesis by blast
  qed
qed

lemma get_talks_world:
  assumes "get_talks e self w = (r, w')"
  shows "\<exists>evs. w' = w @ evs \<and> (\<forall>p\<in>set (written_paths evs). CHR ''/'' \<in> set p)"
proof -
  let ?w1 = "w @ [HttpGet (schedule_url self)]"
  have "w' = ?w1 \<or> (\<exists>j self'. process_talks e j self' ?w1 = (r, w'))"
    using assms
    by (auto simp: get_talks_def Let_def split: sum.splits option.splits if_splits)
  then show ?thesis
  proof
    assume "w' = ?w1"
    then show ?thesis by simp
  next
    assume "\<exists>j self'. process_talks e j self' ?w1 = (r, w')"
    then obtain j self' where "process_talks e j self' ?w1 = (r, w')" by blast
    from process_talks_world [OF this] obtain evs where
      "w' = ?w1 @ evs" "\<forall>p\<in>set (written_paths evs). CHR ''/'' \<in> set p"
      by blast
    then have "w' = w @ (HttpGet (schedule_url self) # evs)
        \<and> (\<forall>p\<in>set (written_paths (HttpGet (schedule_url self) # evs)). CHR ''/'' \<in> set p)"
      by simp
    then show ?thesis by blast
  qed
qed

lemma init_world:
  assumes "init e kwargs w = (r, w')"
  shows "\<exists>evs. w' = w @ evs \<and> (\<forall>p\<in>set (written_paths evs). CHR ''/'' \<in> set p)"
proof (cases "output_dir (new_self e kwargs)")
  case None
  with assms have "w' = w" by (simp add: init_def Let_def)
  then show ?thesis by simp
next
  case (Some dir)
  obtain r1 w1 where mk: "mkdir e dir w = (r1, w1)" by fastforce
  from mkdir_world [OF mk] obtain evs1 where evs1: "w1 = w @ evs1" "written_paths evs1 = []"
    by blast
  show ?thesis
  proof (cases r1)
    case (Inl err)
    with assms Some mk have "w' = w1" by (simp add: init_def Let_def)
    with evs1 show ?thesis by auto
  next
    case (Inr u)
    with assms Some mk have "get_talks e (new_self e kwargs) w1 = (r, w')"
      by (simp add: init_def Let_def)
    from get_talks_world [OF this] obtain evs2 where
      "w' = w1 @ evs2" "\<forall>p\<in>set (written_paths evs2). CHR ''/'' \<in> set p"
      by blast
    with evs1 have "w' = w @ (evs1 @ evs2)
        \<and> (\<forall>p\<in>set (written_paths (evs1 @ evs2)). CHR ''/'' \<in> set p)"
      by (simp add: written_paths_append)
    then show ?thesis by blast
  qed
qed

section \<open>Lemmas about a construction that succeeds\<close>

lemma download_attachments_Inr:
  assumes "download_attachments e self ds dest w = (Inr res, w')"
  shows "length res = length ds
         \<and> map (\<lambda>a. Some (file_name a)) res = map fd_name ds
         \<and> map (\<lambda>a. Some (file_url a)) res = map fd_path ds
         \<and> (\<forall>a\<in>set res. \<exists>dir. destination_or_output_dir self dest = Some dir
                \<and> file_path a = file_path_local e dir (file_name a))"
  using download_loop_Inr [of e self dest ds "[]" w res w'] assms
  by (simp add: download_attachments_def)

lemma process_talk_Inr:
  assumes "process_talk e self talk w = (Inr talk', w')"
    and "files talk = Some ds" and "ds \<noteq> []"
  shows "\<exists>name dir res. talk_name talk = Some name \<and> output_dir self = Some dir
           \<and> os_path_join dir (slugify e name) \<noteq> []
           \<and> talk' = talk\<lparr>attachments := Some res\<rparr>
           \<and> length res = length ds
           \<and> map (\<lambda>a. Some (file_name a)) res = map fd_name ds
           \<and> map (\<lambda>a. Some (file_url a)) res = map fd_path ds
           \<and> (\<forall>a\<in>set res. file_path a
                  = file_path_local e (os_path_join dir (slugify e name)) (file_name a))"
proof -
  from assms obtain name dir where nd: "talk_name talk = Some name" "output_dir self = Some dir"
    by (auto simp: process_talk_def Let_def split: option.splits)
  let ?tp = "os_path_join dir (slugify e name)"
  from assms nd obtain u w1 res where
    mk: "mkdir e ?tp w = (Inr u, w1)" and
    dl: "download_attachments e self ds (Some ?tp) w1 = (Inr res, w')" and
    t': "talk' = talk\<lparr>attachments := Some res\<rparr>"
    by (auto simp: process_talk_def Let_def split: prod.splits sum.splits)
  from mk have tp: "?tp \<noteq> []" using mkdir_Inr by blast
  from download_attachments_Inr [OF dl] tp
  have "length res = length ds
         \<and> map (\<lambda>a. Some (file_name a)) res = map fd_name ds
         \<and> map (\<lambda>a. Some (file_url a)) res = map fd_path ds
         \<and> (\<forall>a\<in>set res. file_path a = file_path_local e ?tp (file_name a))"
    by (auto simp: destination_Some)
  with nd tp t' show ?thesis by blast
qed

lemma process_talk_no_files:
  assumes "process_talk e self talk w = (Inr talk', w')"
    and "files talk = None \<or> files talk = Some []"
  shows "talk' = talk"
  using assms by (auto simp: process_talk_def Let_def)

lemma process_talk_files:
  assumes "process_talk e self talk w = (Inr talk', w')"
  shows "files talk' = files talk"
  using assms
  by (auto simp: process_talk_def Let_def split: option.splits prod.splits sum.splits if_splits)

lemma output_dir_cong: "settings s1 = settings s2 \<Longrightarrow> output_dir s1 = output_dir s2"
  by (simp add: output_dir_def)

lemma download_attachment_cong:
  assumes "settings s1 = settings s2"
  shows "download_attachment e s1 dest d w = download_attachment e s2 dest d w"
proof -
  have same: "destination_or_output_dir s1 dest = destination_or_output_dir s2 dest"
    using output_dir_cong [OF assms] by (simp add: destination_or_output_dir_def)
  show ?thesis unfolding download_attachment_def same by (rule refl)
qed

lemma download_loop_cong:
  "settings s1 = settings s2
   \<Longrightarrow> download_loop e s1 dest ds result w = download_loop e s2 dest ds result w"
proof (induction ds arbitrary: result w)
  case Nil
  show ?case by simp
next
  case (Cons d ds)
  then show ?case
    using download_attachment_cong [of s1 s2 e dest d w]
    by (simp split: prod.splits sum.splits)
qed

lemma process_talk_cong:
  assumes "settings s1 = settings s2"
  shows "process_talk e s1 talk w = process_talk e s2 talk w"
proof -
  have same: "download_attachments e s1 = download_attachments e s2"
    using download_loop_cong [OF assms] by (intro ext) (simp add: download_attachments_def)
  show ?thesis
    unfolding process_talk_def output_dir_cong [OF assms] same by (rule refl)
qed

lemma process_talks_Inr:
  "process_talks e ts self w = (Inr self', w')
   \<Longrightarrow> settings self' = settings self
       \<and> (\<exists>new. talks self' = talks self @ new
             \<and> (\<forall>t'\<in>set new. \<exists>t w1 w2. t \<in> set ts \<and> process_talk e self t w1 = (Inr t', w2)))"
proof (induction ts arbitrary: self w)
  case Nil
  then show ?case by simp
next
  case (Cons t ts)
  from Cons.prems obtain t1 w1 where
    one: "process_talk e self t w = (Inr t1, w1)" and
    rest: "process_talks e ts (self\<lparr>talks := talks self @ [t1]\<rparr>) w1 = (Inr self', w')"
    by (auto split: prod.splits sum.splits)
  let ?s = "self\<lparr>talks := talks self @ [t1]\<rparr>"
  from Cons.IH [OF rest] obtain new where
    st: "settings self' = settings ?s" and
    new: "talks self' = talks ?s @ new"
      "\<forall>t'\<in>set new. \<exists>t w1 w2. t \<in> set ts \<and> process_talk e ?s t w1 = (Inr t', w2)"
    by blast
  have same: "process_talk e ?s = process_talk e self"
    by (intro ext, rule process_talk_cong) simp
  have "talks self' = talks self @ (t1 # new)" using new(1) by simp
  moreover have "\<forall>t'\<in>set (t1 # new). \<exists>t0 w1 w2. t0 \<in> set (t # ts)
       \<and> process_talk e self t0 w1 = (Inr t', w2)"
    using one new(2) unfolding same by (metis list.set_intros(1,2) set_ConsD)
  ultimately show ?case using st by auto
qed

lemma init_Inr:
  assumes "init e kwargs w = (Inr self, w')"
  shows "settings self = settings (new_self e kwargs)
         \<and> (\<exists>dir. output_dir self = Some dir \<and> dir \<noteq> [])
         \<and> (\<forall>t'\<in>set (talks self). \<exists>t w1 w2. process_talk e self t w1 = (Inr t', w2))"
proof -
  let ?s0 = "new_self e kwargs"
  from assms obtain dir u w1 where dir: "output_dir ?s0 = Some dir"
    and mk: "mkdir e dir w = (Inr u, w1)" and gt: "get_talks e ?s0 w1 = (Inr self, w')"
    by (auto simp: init_def Let_def split: option.splits prod.splits sum.splits)
  from gt obtain j s1 w2 where s1: "s1 = ?s0\<lparr>json := Some j\<rparr>"
    and pt: "process_talks e j s1 w2 = (Inr self, w')"
    by (auto simp: get_talks_def Let_def new_self_def split: sum.splits option.splits if_splits)
  from process_talks_Inr [OF pt] obtain new where
    st: "settings self = settings s1" and new: "talks self = talks s1 @ new"
    "\<forall>t'\<in>set new. \<exists>t w1 w2. t \<in> set j \<and> process_talk e s1 t w1 = (Inr t', w2)"
    by blast
  have st0: "settings self = settings ?s0" using st s1 by simp
  have same: "process_talk e s1 = process_talk e self"
    by (intro ext, rule process_talk_cong) (simp add: st)
  have "talks s1 = []" using s1 by (simp add: new_self_def)
  then have "talks self = new" using new(1) by simp
  then have "\<forall>t'\<in>set (talks self). \<exists>t w1 w2. process_talk e self t w1 = (Inr t', w2)"
    using new(2) unfolding same by blast
  moreover have "output_dir self = Some dir" using st0 dir by (simp add: output_dir_def)
  moreover have "dir \<noteq> []" using mk mkdir_Inr by blast
  ultimately show ?thesis using st0 by blast
qed

section \<open>Lemmas about byte strings and the sample run\<close>

lemma concat_map_singletons:
  "(\<And>x. x \<in> set xs \<Longrightarrow> f x = [x]) \<Longrightarrow> concat (map f xs) = xs"
  by (induction xs) simp_all

lemma bytes_repr_plain:
  assumes "plain_bytes b"
  shows "bytes_repr b = ''b'' @ [bytes_quote b] @ b @ [bytes_quote b]"
proof -
  have "bytes_escape (bytes_quote b) c = [c]" if "c \<in> set b" for c
  proof -
    from assms that have c: "(32::nat) \<le> of_char c" "(of_char c :: nat) < 127" "c \<noteq> CHR 0x5C"
      by (auto simp: plain_bytes_def list_all_iff)
    from assms that have "c \<noteq> bytes_quote b"
      by (auto simp: plain_bytes_def bytes_quote_def)
    moreover from c have "c \<noteq> CHR 0x09" "c \<noteq> CHR 0x0A" "c \<noteq> CHR 0x0D" by auto
    ultimately show ?thesis using c by (simp add: bytes_escape_def)
  qed
  then have "concat (map (bytes_escape (bytes_quote b)) b) = b"
    by (rule concat_map_singletons)
  then show ?thesis by (simp add: bytes_repr_def Let_def)
qed

lemma sample_init:
  "\<exists>self w'. init sample_env (main_kwargs sample_cli) [] = (Inr self, w')
      \<and> talks self = [sample_talk_resolved, sample_break]"
proof -
  have "case init sample_env (main_kwargs sample_cli) [] of
          (Inr self, w') \<Rightarrow> talks self = [sample_talk_resolved, sample_break]
        | (Inl err, w') \<Rightarrow> False"
    by code_simp
  then show ?thesis by (auto split: prod.splits sum.splits)
qed

lemma sample_slugify_no_sep: "CHR ''/'' \<notin> set (slugify sample_env s)"
  by (auto simp: sample_env_def sample_slugify_def)

section \<open>The claims\<close>

text \<open>
  C1. The claim: a falsy response to the schedule fetch raises no error and the run goes on
  with an empty list of talks. The code does not do so: with a response that is not \<open>ok\<close>
  the slot \<open>json\<close> is never assigned, and the loop that follows reads it, which raises
  \<open>AttributeError\<close>. The construction fails with that error right after the request.
\<close>

theorem falsy_response_raises_AttributeError:
  assumes "output_dir (new_self e kwargs) = Some dir"
    and "mkdir e dir w = (Inr (), w1)"
    and "requests_get e (schedule_url (new_self e kwargs)) = Inr talks_response"
    and "\<not> ok talks_response"
  shows "init e kwargs w
           = (Inl AttributeError, w1 @ [HttpGet (schedule_url (new_self e kwargs))])"
proof -
  have "json (new_self e kwargs) = None" by (simp add: new_self_def)
  with assms(3,4) have "get_talks e (new_self e kwargs) w1
      = (Inl AttributeError, w1 @ [HttpGet (schedule_url (new_self e kwargs))])"
    by (simp add: get_talks_def Let_def)
  with assms(1,2) show ?thesis by (simp add: init_def Let_def)
qed

theorem falsy_response_raises_AttributeError_witness:
  "output_dir (new_self sample_env_404 (main_kwargs sample_cli)) = Some ''files''
   \<and> mkdir sample_env_404 ''files'' [] = (Inr (), [Mkdir ''files''])
   \<and> requests_get sample_env_404 (schedule_url (new_self sample_env_404 (main_kwargs sample_cli)))
       = Inr \<lparr>ok = False, content = ''Not Found''\<rparr>
   \<and> \<not> ok \<lparr>ok = False, content = ''Not Found''\<rparr>
   \<and> init sample_env_404 (main_kwargs sample_cli) []
       = (Inl AttributeError,
          [Mkdir ''files'']
          @ [HttpGet (schedule_url (new_self sample_env_404 (main_kwargs sample_cli)))])
   \<and> main sample_env_404 sample_cli []
       = (Inl AttributeError,
          [Mkdir ''files'',
           HttpGet ''https://pycones19.sched.com/api/session/export?api_key=k0&format=json&strip_html=Y&fields=id,files,name,speakers,event_start,description''])"
proof -
  have h1: "output_dir (new_self sample_env_404 (main_kwargs sample_cli)) = Some ''files''"
    by code_simp
  have h2: "mkdir sample_env_404 ''files'' [] = (Inr (), [Mkdir ''files''])"
    by code_simp
  have h3: "requests_get sample_env_404
              (schedule_url (new_self sample_env_404 (main_kwargs sample_cli)))
            = Inr \<lparr>ok = False, content = ''Not Found''\<rparr>"
    by (simp add: sample_env_404_def)
  have h4: "\<not> ok \<lparr>ok = False, content = ''Not Found''\<rparr>" by simp
  have run: "main sample_env_404 sample_cli []
       = (Inl AttributeError,
          [Mkdir ''files'',
           HttpGet ''https://pycones19.sched.com/api/session/export?api_key=k0&format=json&strip_html=Y&fields=id,files,name,speakers,event_start,description''])"
    by code_simp
  from falsy_response_raises_AttributeError [OF h1 h2 h3 h4] h1 h2 h3 h4 run
  show ?thesis by blast
qed

text \<open>
  C2. The claim: a truthy response whose body is not valid JSON raises a fatal error whose
  message includes the raw response body, and the whole run aborts. The run does abort
  with that exception, right after the request and before anything is exported. The body
  is a byte string, though, and the f-string prints its \<open>repr\<close>: the message holds the
  body as the literal \<open>b'...'\<close>, with every escaped byte written as its escape. As amended:
  the message ends with the \<open>repr\<close> of the body, and it includes the body itself when the
  body is plain (printable ASCII, no backslash, not both kinds of quote).
\<close>

theorem invalid_json_raises_with_repr_of_body:
  assumes "mkdir e (case flag_output_dir c of Some d \<Rightarrow> d | None \<Rightarrow> ''files'') w = (Inr (), w1)"
    and "requests_get e (schedule_url (new_self e (main_kwargs c))) = Inr talks_response"
    and "ok talks_response"
    and "json_loads e (content talks_response) = None"
  shows "main e c w
           = (Inl (Exception (''Sched Talks can'' @ [CHR 0x27] @ ''t be correctly retrieved: ''
                                @ [CHR 0x27] @ bytes_repr (content talks_response))),
              w1 @ [HttpGet (schedule_url (new_self e (main_kwargs c)))])
    \<and> (plain_bytes (content talks_response)
         \<longrightarrow> sublist (content talks_response)
               (''Sched Talks can'' @ [CHR 0x27] @ ''t be correctly retrieved: ''
                  @ [CHR 0x27] @ bytes_repr (content talks_response)))"
proof -
  let ?s = "new_self e (main_kwargs c)"
  have dir: "output_dir ?s = Some (case flag_output_dir c of Some d \<Rightarrow> d | None \<Rightarrow> ''files'')"
    by (simp add: output_dir_def new_self_def main_kwargs_def parse_args_def Let_def map_add_def)
  from assms(2-4) have "get_talks e ?s w1
      = (Inl (Exception (retrieve_message (content talks_response))),
         w1 @ [HttpGet (schedule_url ?s)])"
    by (simp add: get_talks_def Let_def)
  with dir assms(1) have "init e (main_kwargs c) w
      = (Inl (Exception (retrieve_message (content talks_response))),
         w1 @ [HttpGet (schedule_url ?s)])"
    by (simp add: init_def Let_def)
  then have run: "main e c w
      = (Inl (Exception (retrieve_message (content talks_response))),
         w1 @ [HttpGet (schedule_url ?s)])"
    by (simp add: main_def)
  have "sublist b (''Sched Talks can'' @ [CHR 0x27] @ ''t be correctly retrieved: ''
                  @ [CHR 0x27] @ bytes_repr b)" if "plain_bytes b" for b
  proof -
    have "''Sched Talks can'' @ [CHR 0x27] @ ''t be correctly retrieved: ''
                  @ [CHR 0x27] @ bytes_repr b
        = (''Sched Talks can'' @ [CHR 0x27] @ ''t be correctly retrieved: ''
                  @ [CHR 0x27] @ ''b'' @ [bytes_quote b]) @ b @ [bytes_quote b]"
      using bytes_repr_plain [OF that] by simp
    then show ?thesis unfolding sublist_def by blast
  qed
  with run show ?thesis by (simp add: retrieve_message_def)
qed

theorem invalid_json_raises_with_repr_of_body_witness:
  "mkdir sample_env_text (case flag_output_dir sample_cli of Some d \<Rightarrow> d | None \<Rightarrow> ''files'') []
     = (Inr (), [Mkdir ''files''])
   \<and> requests_get sample_env_text (schedule_url (new_self sample_env_text (main_kwargs sample_cli)))
       = Inr \<lparr>ok = True, content = text_body\<rparr>
   \<and> ok \<lparr>ok = True, content = text_body\<rparr>
   \<and> json_loads sample_env_text (content \<lparr>ok = True, content = text_body\<rparr>) = None
   \<and> plain_bytes (content \<lparr>ok = True, content = text_body\<rparr>)
   \<and> main sample_env_text sample_cli []
       = (Inl (Exception (''Sched Talks can'' @ [CHR 0x27] @ ''t be correctly retrieved: ''
                            @ [CHR 0x27] @ ''b'' @ [CHR 0x27] @ ''ERROR: Invalid API key''
                            @ [CHR 0x27])),
          [Mkdir ''files'']
          @ [HttpGet (schedule_url (new_self sample_env_text (main_kwargs sample_cli)))])
   \<and> sublist ''ERROR: Invalid API key''
        (''Sched Talks can'' @ [CHR 0x27] @ ''t be correctly retrieved: ''
           @ [CHR 0x27] @ ''b'' @ [CHR 0x27] @ ''ERROR: Invalid API key'' @ [CHR 0x27])"
proof -
  let ?r = "\<lparr>ok = True, content = text_body\<rparr>"
  have h1: "mkdir sample_env_text
              (case flag_output_dir sample_cli of Some d \<Rightarrow> d | None \<Rightarrow> ''files'') []
            = (Inr (), [Mkdir ''files''])"
    by code_simp
  have h2: "requests_get sample_env_text
              (schedule_url (new_self sample_env_text (main_kwargs sample_cli))) = Inr ?r"
    by (simp add: sample_env_text_def)
  have h3: "ok ?r" by simp
  have h4: "json_loads sample_env_text (content ?r) = None" by code_simp
  have h5: "plain_bytes (content ?r)" by code_simp
  have repr: "bytes_repr ''ERROR: Invalid API key''
      = ''b'' @ [CHR 0x27] @ ''ERROR: Invalid API key'' @ [CHR 0x27]"
    by code_simp
  have body: "content ?r = ''ERROR: Invalid API key''" by (simp add: text_body_def)
  from invalid_json_raises_with_repr_of_body [OF h1 h2 h3 h4] h5 have
    "main sample_env_text sample_cli []
       = (Inl (Exception (''Sched Talks can'' @ [CHR 0x27] @ ''t be correctly retrieved: ''
                            @ [CHR 0x27] @ bytes_repr (content ?r))),
          [Mkdir ''files'']
          @ [HttpGet (schedule_url (new_self sample_env_text (main_kwargs sample_cli)))])"
    and "sublist (content ?r)
               (''Sched Talks can'' @ [CHR 0x27] @ ''t be correctly retrieved: ''
                  @ [CHR 0x27] @ bytes_repr (content ?r))"
    by blast+
  then show ?thesis unfolding body repr using h1 h2 h3 h4 h5 unfolding body by simp
qed

text \<open>
  The claim as stated fails for a body that ends with a newline: the message holds the two
  characters of the escape instead, so the body is not part of it.
\<close>

theorem invalid_json_message_lacks_raw_body:
  "requests_get sample_env_html
     ''https://pycones19.sched.com/api/session/export?api_key=k0&format=json&strip_html=Y&fields=id,files,name,speakers,event_start,description''
     = Inr \<lparr>ok = True, content = ''<h1>Invalid API key</h1>\<newline>''\<rparr>
   \<and> json_loads sample_env_html ''<h1>Invalid API key</h1>\<newline>'' = None
   \<and> main sample_env_html sample_cli []
     = (Inl (Exception (''Sched Talks can'' @ [CHR 0x27] @ ''t be correctly retrieved: ''
                          @ [CHR 0x27] @ ''b'' @ [CHR 0x27] @ ''<h1>Invalid API key</h1>''
                          @ [CHR 0x5C] @ ''n'' @ [CHR 0x27])),
        [Mkdir ''files'',
         HttpGet ''https://pycones19.sched.com/api/session/export?api_key=k0&format=json&strip_html=Y&fields=id,files,name,speakers,event_start,description''])
   \<and> \<not> sublist ''<h1>Invalid API key</h1>\<newline>''
          (''Sched Talks can'' @ [CHR 0x27] @ ''t be correctly retrieved: ''
                          @ [CHR 0x27] @ ''b'' @ [CHR 0x27] @ ''<h1>Invalid API key</h1>''
                          @ [CHR 0x5C] @ ''n'' @ [CHR 0x27])"
proof -
  have response: "requests_get sample_env_html
     ''https://pycones19.sched.com/api/session/export?api_key=k0&format=json&strip_html=Y&fields=id,files,name,speakers,event_start,description''
     = Inr \<lparr>ok = True, content = ''<h1>Invalid API key</h1>\<newline>''\<rparr>"
    by (simp add: sample_env_html_def html_body_def)
  have invalid: "json_loads sample_env_html ''<h1>Invalid API key</h1>\<newline>'' = None"
    by code_simp
  have run: "main sample_env_html sample_cli []
     = (Inl (Exception (''Sched Talks can'' @ [CHR 0x27] @ ''t be correctly retrieved: ''
                          @ [CHR 0x27] @ ''b'' @ [CHR 0x27] @ ''<h1>Invalid API key</h1>''
                          @ [CHR 0x5C] @ ''n'' @ [CHR 0x27])),
        [Mkdir ''files'',
         HttpGet ''https://pycones19.sched.com/api/session/export?api_key=k0&format=json&strip_html=Y&fields=id,files,name,speakers,event_start,description''])"
    by code_simp
  have "\<not> sublist ''<h1>Invalid API key</h1>\<newline>''
          (''Sched Talks can'' @ [CHR 0x27] @ ''t be correctly retrieved: ''
                          @ [CHR 0x27] @ ''b'' @ [CHR 0x27] @ ''<h1>Invalid API key</h1>''
                          @ [CHR 0x5C] @ ''n'' @ [CHR 0x27])"
    by (auto dest!: set_mono_sublist)
  with response invalid run show ?thesis by blast
qed

text \<open>
  C3. A talk without speakers (the key absent, or an empty list) gives no heading, and a
  talk with at least one speaker gives exactly one: the document is the preamble, then
  one block for each talk that has a speaker, in input order, and nothing for the others,
  then the lightning talks and the footer. The block of a talk starts with the heading
  of its name, followed by the line of its speakers' names, joined by commas in their
  order. So a talk without speakers can be taken out of the list without changing the
  document, and a talk with speakers adds its one block and nothing else.
\<close>

theorem talks_with_speakers_rendered_once:
  "as_md e self
     = preamble
       @ concat (map (\<lambda>t. talk_md t @ ''\<newline>'')
           (filter (\<lambda>t. speakers t \<noteq> None \<and> speakers t \<noteq> Some []) (talks self)))
       @ lightning_part e @ footer e
   \<and> prefix (''### '' @ fmt (talk_name talk) @ ''\<newline>'' @ ''  - :snake: _''
           @ py_join '', '' (map speaker_display (case speakers talk of None \<Rightarrow> [] | Some ss \<Rightarrow> ss))
           @ ''_\<newline>'') (talk_md talk)
   \<and> (speakers talk = None \<or> speakers talk = Some []
        \<longrightarrow> as_md e (self\<lparr>talks := before @ talk # after\<rparr>)
            = as_md e (self\<lparr>talks := before @ after\<rparr>))
   \<and> (speakers talk \<noteq> None \<and> speakers talk \<noteq> Some []
        \<longrightarrow> (\<exists>P S. as_md e (self\<lparr>talks := before @ after\<rparr>) = P @ S
                   \<and> as_md e (self\<lparr>talks := before @ talk # after\<rparr>)
                       = P @ (talk_md talk @ ''\<newline>'') @ S))"
proof -
  let ?has = "\<lambda>t. speakers t \<noteq> None \<and> speakers t \<noteq> Some []"
  let ?block = "\<lambda>t. talk_md t @ ''\<newline>''"
  have same: "(\<lambda>t. speaker_names t \<noteq> []) = ?has"
    by (auto simp: speaker_names_def fun_eq_iff split: option.splits)
  have doc: "as_md e s
     = preamble @ concat (map ?block (filter ?has (talks s))) @ lightning_part e @ footer e"
    for s
    using as_md_blocks [of e s] unfolding same .
  have heading: "prefix (''### '' @ fmt (talk_name talk) @ ''\<newline>'' @ ''  - :snake: _''
           @ py_join '', '' (map speaker_display (case speakers talk of None \<Rightarrow> [] | Some ss \<Rightarrow> ss))
           @ ''_\<newline>'') (talk_md talk)"
    using talk_md_heading [of talk] by (simp add: speaker_names_def)
  have skipped: "as_md e (self\<lparr>talks := before @ talk # after\<rparr>)
            = as_md e (self\<lparr>talks := before @ after\<rparr>)"
    if "speakers talk = None \<or> speakers talk = Some []"
    using that by (auto simp: doc)
  have once: "\<exists>P S. as_md e (self\<lparr>talks := before @ after\<rparr>) = P @ S
                   \<and> as_md e (self\<lparr>talks := before @ talk # after\<rparr>)
                       = P @ (talk_md talk @ ''\<newline>'') @ S"
    if "speakers talk \<noteq> None \<and> speakers talk \<noteq> Some []"
  proof (intro exI conjI)
    show "as_md e (self\<lparr>talks := before @ after\<rparr>)
        = (preamble @ concat (map ?block (filter ?has before)))
          @ (concat (map ?block (filter ?has after)) @ lightning_part e @ footer e)"
      by (simp add: doc)
    show "as_md e (self\<lparr>talks := before @ talk # after\<rparr>)
        = (preamble @ concat (map ?block (filter ?has before))) @ (talk_md talk @ ''\<newline>'')
          @ (concat (map ?block (filter ?has after)) @ lightning_part e @ footer e)"
      using that by (simp add: doc)
  qed
  from doc [of self] heading skipped once show ?thesis by blast
qed

theorem talks_with_speakers_rendered_once_witness:
  "as_md sample_env sample_self
     = preamble @ (talk_md sample_talk_resolved @ ''\<newline>'')
       @ lightning_part sample_env @ footer sample_env
   \<and> prefix (''### intro to pytest\<newline>'' @ ''  - :snake: _Ana, Unknown_\<newline>'')
       (talk_md sample_talk_resolved)
   \<and> speakers sample_break = Some []
   \<and> as_md sample_env (sample_self\<lparr>talks := [sample_talk_resolved] @ sample_break # []\<rparr>)
       = as_md sample_env (sample_self\<lparr>talks := [sample_talk_resolved] @ []\<rparr>)
   \<and> speakers sample_talk_resolved \<noteq> None \<and> speakers sample_talk_resolved \<noteq> Some []
   \<and> (\<exists>P S. as_md sample_env (sample_self\<lparr>talks := [] @ [sample_break]\<rparr>) = P @ S
          \<and> as_md sample_env (sample_self\<lparr>talks := [] @ sample_talk_resolved # [sample_break]\<rparr>)
              = P @ (talk_md sample_talk_resolved @ ''\<newline>'') @ S)"
proof -
  have h1: "speakers sample_break = Some []" by (simp add: sample_break_def)
  have h2: "speakers sample_talk_resolved \<noteq> None \<and> speakers sample_talk_resolved \<noteq> Some []"
    by (simp add: sample_talk_resolved_def sample_talk_def)
  note rendered = talks_with_speakers_rendered_once [of sample_env sample_self sample_talk_resolved "[]" "[sample_break]"]
  note skipped = talks_with_speakers_rendered_once [of sample_env sample_self sample_break "[sample_talk_resolved]" "[]"]
  from rendered [THEN conjunct1] h1 h2
  have a: "as_md sample_env sample_self
     = preamble @ (talk_md sample_talk_resolved @ ''\<newline>'')
       @ lightning_part sample_env @ footer sample_env"
    by (simp add: sample_self_def)
  from rendered [THEN conjunct2, THEN conjunct1]
  have b: "prefix (''### intro to pytest\<newline>'' @ ''  - :snake: _Ana, Unknown_\<newline>'')
       (talk_md sample_talk_resolved)"
    by (simp add: sample_talk_resolved_def sample_talk_def fmt_def speaker_display_def)
  from skipped [THEN conjunct2, THEN conjunct2, THEN conjunct1] h1
  have c: "as_md sample_env (sample_self\<lparr>talks := [sample_talk_resolved] @ sample_break # []\<rparr>)
       = as_md sample_env (sample_self\<lparr>talks := [sample_talk_resolved] @ []\<rparr>)"
    by blast
  from rendered [THEN conjunct2, THEN conjunct2, THEN conjunct2] h2
  have d: "\<exists>P S. as_md sample_env (sample_self\<lparr>talks := [] @ [sample_break]\<rparr>) = P @ S
          \<and> as_md sample_env (sample_self\<lparr>talks := [] @ sample_talk_resolved # [sample_break]\<rparr>)
              = P @ (talk_md sample_talk_resolved @ ''\<newline>'') @ S"
    by blast
  from a b c d h1 h2 show ?thesis by blast
qed





text \<open>
  C10. A speaker without the key \<open>name\<close> is listed as \<open>Unknown\<close>, at its place in the
  comma-joined line of speakers, and it counts as a speaker: a talk that has one is not
  skipped, its block is appended to the document.
\<close>

theorem missing_speaker_name_is_Unknown:
  assumes "speakers talk = Some (before @ \<lparr>speaker_name = None\<rparr> # after)"
  shows "speaker_names talk = map speaker_display before @ ''Unknown'' # map speaker_display after
    \<and> py_join '', '' (speaker_names talk)
        = (if before = [] then [] else py_join '', '' (map speaker_display before) @ '', '')
          @ ''Unknown''
          @ (if after = [] then [] else '', '' @ py_join '', '' (map speaker_display after))
    \<and> render_talk talk talks_content = talks_content @ talk_md talk @ ''\<newline>''
    \<and> prefix (''### '' @ fmt (talk_name talk) @ ''\<newline>'' @ ''  - :snake: _''
           @ py_join '', '' (speaker_names talk) @ ''_\<newline>'') (talk_md talk)"
proof -
  have names: "speaker_names talk
      = map speaker_display before @ ''Unknown'' # map speaker_display after"
    using assms by (simp add: speaker_names_def speaker_display_def)
  have joined: "py_join '', '' (speaker_names talk)
        = (if before = [] then [] else py_join '', '' (map speaker_display before) @ '', '')
          @ ''Unknown''
          @ (if after = [] then [] else '', '' @ py_join '', '' (map speaker_display after))"
    unfolding names by (simp add: py_join_middle)
  have rendered: "render_talk talk talks_content = talks_content @ talk_md talk @ ''\<newline>''"
    using names by (simp add: render_talk_def)
  show ?thesis using names joined rendered talk_md_heading [of talk] by blast
qed

theorem missing_speaker_name_is_Unknown_witness:
  "speakers sample_talk = Some ([\<lparr>speaker_name = Some ''Ana''\<rparr>] @ \<lparr>speaker_name = None\<rparr> # [])
   \<and> speaker_names sample_talk = [''Ana'', ''Unknown'']
   \<and> py_join '', '' (speaker_names sample_talk) = ''Ana, Unknown''
   \<and> render_talk sample_talk preamble = preamble @ talk_md sample_talk @ ''\<newline>''
   \<and> prefix (''### intro to pytest\<newline>'' @ ''  - :snake: _Ana, Unknown_\<newline>'')
       (talk_md sample_talk)"
proof -
  have h: "speakers sample_talk
      = Some ([\<lparr>speaker_name = Some ''Ana''\<rparr>] @ \<lparr>speaker_name = None\<rparr> # [])"
    by (simp add: sample_talk_def)
  have name: "fmt (talk_name sample_talk) = ''intro to pytest''"
    by (simp add: sample_talk_def fmt_def)
  note unknown = missing_speaker_name_is_Unknown [OF h, of preamble]
  from unknown [THEN conjunct1]
  have names: "speaker_names sample_talk = [''Ana'', ''Unknown'']"
    by (simp add: speaker_display_def)
  from unknown [THEN conjunct2, THEN conjunct1]
  have joined: "py_join '', '' (speaker_names sample_talk) = ''Ana, Unknown''"
    by (simp add: speaker_display_def)
  note rendered = unknown [THEN conjunct2, THEN conjunct2, THEN conjunct1]
  from unknown [THEN conjunct2, THEN conjunct2, THEN conjunct2]
  have "prefix (''### intro to pytest\<newline>'' @ ''  - :snake: _Ana, Unknown_\<newline>'')
       (talk_md sample_talk)"
    unfolding joined name by simp
  with h names joined rendered show ?thesis by blast
qed



text \<open>
  C5. After a construction that succeeds, with a \<open>slugify\<close> that never returns a
  separator, every attachment resolved for a talk with files has a \<open>file_path\<close> made of
  the output directory, the slug of the talk's name, and a last component that is the
  slug of the base of the attachment's original name followed by its extension (base and
  extension being the two parts into which \<open>splitext\<close> cuts the name): the path lies under
  \<open>output_dir/<slug of the talk's name>/\<close>, and its \<open>basename\<close> is that last component.
  The output directory is never empty there, since \<open>os.mkdir('')\<close> raises.
\<close>

theorem file_path_under_talk_directory:
  assumes "init e kwargs w = (Inr self, w')"
    and "\<forall>s. CHR ''/'' \<notin> set (slugify e s)"
    and "talk \<in> set (talks self)" and "files talk = Some ds" and "ds \<noteq> []"
  shows "\<exists>dir name res. output_dir self = Some dir \<and> talk_name talk = Some name
           \<and> attachments talk = Some res
           \<and> map (\<lambda>a. Some (file_name a)) res = map fd_name ds
           \<and> (\<forall>a\<in>set res.
                 file_path a = with_sep (with_sep dir @ slugify e name)
                                 @ slugify e (fst (splitext (file_name a)))
                                 @ snd (splitext (file_name a))
               \<and> basename (file_path a)
                   = slugify e (fst (splitext (file_name a))) @ snd (splitext (file_name a))
               \<and> fst (splitext (file_name a)) @ snd (splitext (file_name a)) = file_name a)"
proof -
  from init_Inr [OF assms(1)] assms(3) obtain dir t w1 w2 where
    dir: "output_dir self = Some dir" "dir \<noteq> []" and
    pt: "process_talk e self t w1 = (Inr talk, w2)"
    by blast
  from process_talk_files [OF pt] assms(4) have "files t = Some ds" by simp
  from process_talk_Inr [OF pt this assms(5)] dir(1) obtain name res where
    name: "talk_name t = Some name" and
    tp: "os_path_join dir (slugify e name) \<noteq> []" and
    talk: "talk = t\<lparr>attachments := Some res\<rparr>" and
    names: "map (\<lambda>a. Some (file_name a)) res = map fd_name ds" and
    paths: "\<forall>a\<in>set res. file_path a
              = file_path_local e (os_path_join dir (slugify e name)) (file_name a)"
    by auto
  have join: "os_path_join dir (slugify e name) = with_sep dir @ slugify e name"
    using dir(2) assms(2) by (simp add: os_path_join_with_sep)
  have "file_path a = with_sep (with_sep dir @ slugify e name)
                                 @ slugify e (fst (splitext (file_name a)))
                                 @ snd (splitext (file_name a))
        \<and> basename (file_path a)
             = slugify e (fst (splitext (file_name a))) @ snd (splitext (file_name a))
        \<and> fst (splitext (file_name a)) @ snd (splitext (file_name a)) = file_name a"
    if "a \<in> set res" for a
  proof -
    let ?f = "slugify e (fst (splitext (file_name a))) @ snd (splitext (file_name a))"
    have eq: "file_path a = with_sep (with_sep dir @ slugify e name) @ ?f"
      using paths that tp assms(2) unfolding join by (simp add: file_path_local_under)
    have "CHR ''/'' \<notin> set ?f" using assms(2) splitext_no_sep by simp
    then have "basename (with_sep (with_sep dir @ slugify e name) @ ?f) = ?f"
      by (rule basename_under)
    with eq splitext_rejoin [of "file_name a"] show ?thesis by simp
  qed
  moreover have "talk_name talk = Some name" "attachments talk = Some res"
    using talk name by simp_all
  ultimately show ?thesis using dir(1) names by blast
qed

theorem file_path_under_talk_directory_witness:
  "\<exists>self w'. init sample_env (main_kwargs sample_cli) [] = (Inr self, w')
     \<and> (\<forall>s. CHR ''/'' \<notin> set (slugify sample_env s))
     \<and> sample_talk_resolved \<in> set (talks self)
     \<and> files sample_talk_resolved
         = Some [\<lparr>fd_path = Some ''https://sched.example/f/1'', fd_name = Some ''slides v2.pdf''\<rparr>,
                 \<lparr>fd_path = Some ''https://sched.example/f/2'', fd_name = Some ''demo.tar.gz''\<rparr>]
     \<and> (\<exists>dir name res. output_dir self = Some dir
           \<and> talk_name sample_talk_resolved = Some name
           \<and> attachments sample_talk_resolved = Some res
           \<and> (\<forall>a\<in>set res.
                 file_path a = with_sep (with_sep dir @ slugify sample_env name)
                                 @ slugify sample_env (fst (splitext (file_name a)))
                                 @ snd (splitext (file_name a))
               \<and> basename (file_path a)
                   = slugify sample_env (fst (splitext (file_name a)))
                     @ snd (splitext (file_name a))
               \<and> fst (splitext (file_name a)) @ snd (splitext (file_name a)) = file_name a))"
proof -
  let ?ds = "[\<lparr>fd_path = Some ''https://sched.example/f/1'', fd_name = Some ''slides v2.pdf''\<rparr>,
              \<lparr>fd_path = Some ''https://sched.example/f/2'', fd_name = Some ''demo.tar.gz''\<rparr>]"
  from sample_init obtain self w' where
    h1: "init sample_env (main_kwargs sample_cli) [] = (Inr self, w')" and
    ts: "talks self = [sample_talk_resolved, sample_break]"
    by blast
  have h2: "\<forall>s. CHR ''/'' \<notin> set (slugify sample_env s)"
    using sample_slugify_no_sep by blast
  have h3: "sample_talk_resolved \<in> set (talks self)" using ts by simp
  have h4: "files sample_talk_resolved = Some ?ds"
    by (simp add: sample_talk_resolved_def sample_talk_def)
  have h5: "?ds \<noteq> []" by simp
  from file_path_under_talk_directory [OF h1 h2 h3 h4 h5]
  have "\<exists>dir name res. output_dir self = Some dir
           \<and> talk_name sample_talk_resolved = Some name
           \<and> attachments sample_talk_resolved = Some res
           \<and> (\<forall>a\<in>set res.
                 file_path a = with_sep (with_sep dir @ slugify sample_env name)
                                 @ slugify sample_env (fst (splitext (file_name a)))
                                 @ snd (splitext (file_name a))
               \<and> basename (file_path a)
                   = slugify sample_env (fst (splitext (file_name a)))
                     @ snd (splitext (file_name a))
               \<and> fst (splitext (file_name a)) @ snd (splitext (file_name a)) = file_name a)"
    by blast
  with h1 h2 h3 h4 show ?thesis by blast
qed

text \<open>
  C6. The settings of the object built by the main block: \<open>output_dir\<close> is the value of
  the flag, or \<open>files\<close> without the flag; \<open>api_key\<close> is the token of the flag when one is
  given (an empty token counts as none: the main block deletes it), otherwise the value
  of \<open>SCHED_API_KEY\<close> when that variable is set, otherwise the value of \<open>SCHED_KEY\<close>, and
  otherwise nothing. A construction that succeeds leaves these settings as they are.
\<close>

theorem settings_precedence:
  "output_dir (new_self e (main_kwargs c))
     = Some (case flag_output_dir c of Some d \<Rightarrow> d | None \<Rightarrow> ''files'')
   \<and> api_key (new_self e (main_kwargs c))
     = (if flag_token c \<noteq> None \<and> flag_token c \<noteq> Some [] then flag_token c
        else if environ e ''SCHED_API_KEY'' \<noteq> None then environ e ''SCHED_API_KEY''
        else environ e ''SCHED_KEY'')
   \<and> (\<forall>self w'. init e (main_kwargs c) w = (Inr self, w')
         \<longrightarrow> output_dir self = output_dir (new_self e (main_kwargs c))
             \<and> api_key self = api_key (new_self e (main_kwargs c)))"
proof -
  have "output_dir (new_self e (main_kwargs c))
     = Some (case flag_output_dir c of Some d \<Rightarrow> d | None \<Rightarrow> ''files'')"
    by (simp add: output_dir_def new_self_def main_kwargs_def parse_args_def Let_def map_add_def)
  moreover have "api_key (new_self e (main_kwargs c))
     = (if flag_token c \<noteq> None \<and> flag_token c \<noteq> Some [] then flag_token c
        else if environ e ''SCHED_API_KEY'' \<noteq> None then environ e ''SCHED_API_KEY''
        else environ e ''SCHED_KEY'')"
    by (auto simp: api_key_def new_self_def main_kwargs_def parse_args_def Let_def map_add_def
        split: option.splits)
  moreover have "output_dir self = output_dir (new_self e (main_kwargs c))
             \<and> api_key self = api_key (new_self e (main_kwargs c))"
    if "init e (main_kwargs c) w = (Inr self, w')" for self w'
    using init_Inr [OF that] by (simp add: output_dir_def api_key_def)
  ultimately show ?thesis by blast
qed

theorem settings_precedence_witness:
  "output_dir (new_self sample_env (main_kwargs sample_cli)) = Some ''files''
   \<and> api_key (new_self sample_env (main_kwargs sample_cli)) = Some ''k0''
   \<and> api_key (new_self sample_env (main_kwargs \<lparr>flag_output_dir = Some ''out'', flag_token = None\<rparr>))
       = Some ''k2''
   \<and> api_key (new_self (sample_env\<lparr>environ := [''SCHED_KEY'' \<mapsto> ''k2'', ''SCHED_API_KEY'' \<mapsto> ''k1'']\<rparr>)
                 (main_kwargs \<lparr>flag_output_dir = Some ''out'', flag_token = None\<rparr>))
       = Some ''k1''
   \<and> (\<exists>self w'. init sample_env (main_kwargs sample_cli) [] = (Inr self, w')
          \<and> output_dir self = Some ''files'' \<and> api_key self = Some ''k0'')"
proof -
  let ?c = "\<lparr>flag_output_dir = Some ''out'', flag_token = None\<rparr>"
  let ?e = "sample_env\<lparr>environ := [''SCHED_KEY'' \<mapsto> ''k2'', ''SCHED_API_KEY'' \<mapsto> ''k1'']\<rparr>"
  note flag = settings_precedence [of sample_env sample_cli "[]"]
  from flag [THEN conjunct1]
  have a: "output_dir (new_self sample_env (main_kwargs sample_cli)) = Some ''files''"
    by (simp add: sample_cli_def)
  from flag [THEN conjunct2, THEN conjunct1]
  have b: "api_key (new_self sample_env (main_kwargs sample_cli)) = Some ''k0''"
    by (simp add: sample_cli_def)
  from settings_precedence [of sample_env ?c "[]", THEN conjunct2, THEN conjunct1]
  have c: "api_key (new_self sample_env (main_kwargs ?c)) = Some ''k2''"
    by (simp add: sample_env_def)
  from settings_precedence [of ?e ?c "[]", THEN conjunct2, THEN conjunct1]
  have d: "api_key (new_self ?e (main_kwargs ?c)) = Some ''k1''"
    by simp
  from sample_init obtain self w' where
    i: "init sample_env (main_kwargs sample_cli) [] = (Inr self, w')"
    by blast
  with flag [THEN conjunct2, THEN conjunct2] a b
  have "output_dir self = Some ''files'' \<and> api_key self = Some ''k0''" by simp
  with i a b c d show ?thesis by blast
qed

text \<open>
  C9. When the construction of the object fails, in the fetch or in a download, the main
  block ends with that error and with the effects of the construction alone: the export
  does not run. None of these effects is a write to \<open>README.md\<close>: every file that the
  construction writes has a separator in its path.
\<close>

theorem no_export_after_failed_construction:
  assumes "init e (main_kwargs c) w = (Inl err, w')"
  shows "main e c w = (Inl err, w')
    \<and> (\<exists>evs. w' = w @ evs \<and> ''README.md'' \<notin> set (written_paths evs))"
proof -
  from init_world [OF assms] obtain evs where
    evs: "w' = w @ evs" "\<forall>p\<in>set (written_paths evs). CHR ''/'' \<in> set p"
    by blast
  have "CHR ''/'' \<notin> set ''README.md''" by simp
  with evs(2) have "''README.md'' \<notin> set (written_paths evs)" by blast
  with evs(1) assms show ?thesis by (auto simp: main_def)
qed

theorem no_export_after_failed_construction_witness:
  "init sample_env_broken (main_kwargs sample_cli) []
     = (Inl RequestException,
        [Mkdir ''files'',
         HttpGet ''https://pycones19.sched.com/api/session/export?api_key=k0&format=json&strip_html=Y&fields=id,files,name,speakers,event_start,description'',
         Mkdir ''files/intro-to-pytest'',
         HttpGet ''https://sched.example/f/1'',
         FileWrite ''files/intro-to-pytest/slides-v2.pdf'' ''%PDF'',
         HttpGet ''https://sched.example/f/2''])
   \<and> main sample_env_broken sample_cli []
     = (Inl RequestException,
        [Mkdir ''files'',
         HttpGet ''https://pycones19.sched.com/api/session/export?api_key=k0&format=json&strip_html=Y&fields=id,files,name,speakers,event_start,description'',
         Mkdir ''files/intro-to-pytest'',
         HttpGet ''https://sched.example/f/1'',
         FileWrite ''files/intro-to-pytest/slides-v2.pdf'' ''%PDF'',
         HttpGet ''https://sched.example/f/2''])"
proof -
  let ?w = "[Mkdir ''files'',
         HttpGet ''https://pycones19.sched.com/api/session/export?api_key=k0&format=json&strip_html=Y&fields=id,files,name,speakers,event_start,description'',
         Mkdir ''files/intro-to-pytest'',
         HttpGet ''https://sched.example/f/1'',
         FileWrite ''files/intro-to-pytest/slides-v2.pdf'' ''%PDF'',
         HttpGet ''https://sched.example/f/2'']"
  have "case init sample_env_broken (main_kwargs sample_cli) [] of
          (Inl err, w') \<Rightarrow> err = RequestException \<and> w' = ?w
        | (Inr self, w') \<Rightarrow> False"
    by code_simp
  then have h: "init sample_env_broken (main_kwargs sample_cli) [] = (Inl RequestException, ?w)"
    by (auto split: prod.splits sum.splits)
  from no_export_after_failed_construction [OF h] h show ?thesis by blast
qed

end
